theory Spec2Isabelle
  imports Main
begin

section \<open>JavaScript values used by the selectors\<close>

text \<open>
  A value of an object or array type may be absent at run time: it is then \<open>undefined\<close>
  or \<open>null\<close>, the two falsy values such a variable can hold. Reading a property of an
  absent value raises a \<open>TypeError\<close>.
\<close>

datatype 'a nullable = Undefined | Null | Def 'a

datatype error = TypeError

definition absent :: "'a nullable \<Rightarrow> bool" where
  "absent v = (case v of Def _ \<Rightarrow> False | _ \<Rightarrow> True)"

text \<open>
  \<open>Array.prototype.indexOf\<close>: the first index whose element is strictly equal to the
  key, and \<open>-1\<close> when there is none. The keys compared below are identifiers
  (primitive values), on which strict equality is equality of values.
\<close>

fun indexOf :: "'a list \<Rightarrow> 'a \<Rightarrow> int" where
  "indexOf [] x = - 1"
| "indexOf (y # ys) x =
     (if y = x then 0 else (let i = indexOf ys x in if i < 0 then - 1 else i + 1))"

text \<open>An indexed read \<open>xs[i]\<close> of an array: \<open>undefined\<close> outside the array.\<close>

definition at_index :: "'a list \<Rightarrow> int \<Rightarrow> 'a nullable" where
  "at_index xs i = (if 0 \<le> i \<and> i < int (length xs) then Def (xs ! nat i) else Undefined)"

text \<open>
  \<open>Array.prototype.filter\<close> with a callback that may raise: the callback is applied
  to the elements in order, and the first exception ends the call.
\<close>

fun filter_js :: "('a \<Rightarrow> error + bool) \<Rightarrow> 'a list \<Rightarrow> error + 'a list" where
  "filter_js f [] = Inr []"
| "filter_js f (x # xs) =
     (case f x of
        Inl e \<Rightarrow> Inl e
      | Inr b \<Rightarrow>
         (case filter_js f xs of
            Inl e \<Rightarrow> Inl e
          | Inr ys \<Rightarrow> Inr (if b then x # ys else ys)))"

section \<open>The search-box component\<close>












section \<open>Playlist selectors\<close>

text \<open>
  The objects the selectors read. Their interfaces are declared in the feature modules;
  the selectors below use the fields \<open>id\<close> of a video and of a playlist, \<open>video\<close> of a
  playlist entry and \<open>videos\<close> of a playlist. The records are extensible, so an object
  may carry further fields. Identifiers are primitive values of a type \<open>'i\<close>.
\<close>

record 'i Video =
  id_Video :: 'i

record 'i PlaylistVideo =
  video :: "'i Video"

record ('i, 'e) Playlist =
  id_Playlist :: 'i
  videos_Playlist :: "'e list nullable"

text \<open>The object literal \<open>{ next: ..., prev: ... }\<close> returned by \<open>getNextPreviousVideos\<close>.\<close>

record 'e NextPrevious =
  next_video :: "'e nullable"
  prev_video :: "'e nullable"

text \<open>
  The selectors are built with \<open>createSelector\<close>, which applies the input selectors to
  the state and hands their values to the result function. The definitions below are
  the result functions, under the names of their selectors.

  \<open>getPlaylistsForList\<close>: \<open>playlists.filter(p => p.id !== current.id)\<close>. Calling
  \<open>filter\<close> on an absent \<open>playlists\<close> raises, and so does reading \<open>current.id\<close> of an
  absent \<open>current\<close>, which happens when the callback runs for the first element.
\<close>

definition getPlaylistsForList ::
  "('i, 'e, 'z) Playlist_scheme list nullable \<Rightarrow> ('i, 'e, 'z) Playlist_scheme nullable
     \<Rightarrow> error + ('i, 'e, 'z) Playlist_scheme list" where
  "getPlaylistsForList playlists current =
     (case playlists of
        Def ps \<Rightarrow>
          filter_js (\<lambda>p. case current of
                           Def c \<Rightarrow> Inr (id_Playlist p \<noteq> id_Playlist c)
                         | _ \<Rightarrow> Inl TypeError) ps
      | _ \<Rightarrow> Inl TypeError)"

text \<open>\<open>getSelectedPlaylistVideos\<close>: \<open>current && current.videos\<close>.\<close>

definition getSelectedPlaylistVideos ::
  "('i, 'e, 'z) Playlist_scheme nullable \<Rightarrow> 'e list nullable" where
  "getSelectedPlaylistVideos current =
     (case current of Undefined \<Rightarrow> Undefined | Null \<Rightarrow> Null | Def c \<Rightarrow> videos_Playlist c)"

text \<open>
  \<open>getNextPreviousVideos\<close>. The key looked up is \<open>current && current.id\<close>: the absent
  value itself when nothing is playing. The identifiers of the entries are defined
  values, so an absent key is found at no index.
\<close>

definition current_id :: "('i, 'y) Video_scheme nullable \<Rightarrow> 'i nullable" where
  "current_id current =
     (case current of Undefined \<Rightarrow> Undefined | Null \<Rightarrow> Null | Def c \<Rightarrow> Def (id_Video c))"

definition getNextPreviousVideos ::
  "('i, 'z) PlaylistVideo_scheme list nullable \<Rightarrow> ('i, 'y) Video_scheme nullable
     \<Rightarrow> error + ('i, 'z) PlaylistVideo_scheme NextPrevious nullable" where
  "getNextPreviousVideos videos_opt current =
     (case videos_opt of
        Def videos \<Rightarrow>
          (let currentIndex =
                 indexOf (map (\<lambda>v. Def (id_Video (video v))) videos) (current_id current)
           in Inr (Def
                \<lparr>next_video =
                   (if currentIndex < int (length videos) - 1
                    then at_index videos (currentIndex + 1) else at_index videos 0),
                 prev_video =
                   (if currentIndex > 0
                    then at_index videos (currentIndex - 1) else Null)\<rparr>))
      | _ \<Rightarrow> Inr Null)"

section \<open>Root state composition\<close>

text \<open>
  The global state is an object with one property per feature (the interface \<open>State\<close>);
  \<open>slice s key\<close> is the read \<open>s[key]\<close>, \<open>undefined\<close> for a property that is not
  set. The states of the features are values of a type \<open>'fs\<close>, whose shape belongs to
  the feature modules. \<open>frozen\<close> records that the object and the objects it holds have
  been frozen.
\<close>

record 'fs State =
  frozen :: bool
  slice :: "string \<Rightarrow> 'fs nullable"

definition State_keys :: "string list" where
  "State_keys =
     [''release'', ''videos'', ''player'', ''playlist'', ''collection'', ''wantlist'',
      ''search'', ''sales'', ''user'', ''router'']"

definition empty_object :: "'fs State" where
  "empty_object = \<lparr>frozen = False, slice = (\<lambda>key. Undefined)\<rparr>"

text \<open>
  Modelled from the spec: the feature transition functions (\<open>fromRelease.reducer\<close> and
  the others) are imported from modules that are not part of the source at hand. The
  spec requires them to return a new feature state without mutating the old one, and
  speaks of one that mutates its input in place. One call of a feature transition
  function is therefore described by what it does: \<open>mutation\<close> is \<open>Some v\<close> when the call
  assigns into its input state object, leaving it with the content \<open>v\<close>, and \<open>None\<close>
  when it writes nothing; \<open>returned\<close> is the value it returns.
\<close>

datatype 'fs run = Run (mutation: "'fs option") (returned: "'fs nullable")

type_synonym ('fs, 'a) FeatureReducer = "'fs nullable \<Rightarrow> 'a \<Rightarrow> 'fs run"

text \<open>
  Modelled from the spec: running one call on the input object \<open>prev\<close>. An assignment
  into a frozen object raises (the mutation guard of the spec), and so does an
  assignment into a value that is not an object. The result is the content of the
  input object after the call and the value returned.
\<close>

definition call_reducer ::
  "bool \<Rightarrow> 'fs nullable \<Rightarrow> 'fs run \<Rightarrow> error + ('fs nullable \<times> 'fs nullable)" where
  "call_reducer is_frozen prev r =
     (case mutation r of
        None \<Rightarrow> Inr (prev, returned r)
      | Some v \<Rightarrow>
          (if is_frozen \<or> absent prev then Inl TypeError else Inr (Def v, returned r)))"

text \<open>
  A root transition function takes the global state, or no state on startup, and an
  action. In the model it returns, besides the new global state, the input state as the
  call leaves it, since a feature transition function may have written into it.
\<close>

type_synonym ('fs, 'a) ActionReducer =
  "'fs State option \<Rightarrow> 'a \<Rightarrow> error + ('fs State option \<times> 'fs State)"

text \<open>
  Modelled from the spec: \<open>combineReducers\<close> of the state-management library. The root
  transition function routes the action to every feature transition function, each
  called with the feature's own slice of the state, and collects the results, stored
  under the feature's key, into a new global state object. With no prior state every
  feature transition function is called with \<open>undefined\<close>.
\<close>

fun combination ::
  "(string \<times> ('fs, 'a) FeatureReducer) list \<Rightarrow> 'fs State \<Rightarrow> 'a \<Rightarrow> 'fs State
     \<Rightarrow> error + ('fs State \<times> 'fs State)" where
  "combination [] state action nextState = Inr (state, nextState)"
| "combination ((key, reducer) # rest) state action nextState =
     (let previousStateForKey = slice state key in
      case call_reducer (frozen state) previousStateForKey
             (reducer previousStateForKey action) of
        Inl e \<Rightarrow> Inl e
      | Inr (previousStateAfter, nextStateForKey) \<Rightarrow>
          combination rest
            (state\<lparr>slice := (slice state)(key := previousStateAfter)\<rparr>) action
            (nextState\<lparr>slice := (slice nextState)(key := nextStateForKey)\<rparr>))"

definition combineReducers ::
  "(string \<times> ('fs, 'a) FeatureReducer) list \<Rightarrow> ('fs, 'a) ActionReducer" where
  "combineReducers reducers state action =
     (case state of
        None \<Rightarrow>
          (case combination reducers empty_object action empty_object of
             Inl e \<Rightarrow> Inl e
           | Inr (_, nextState) \<Rightarrow> Inr (None, nextState))
      | Some s \<Rightarrow>
          (case combination reducers s action empty_object of
             Inl e \<Rightarrow> Inl e
           | Inr (s', nextState) \<Rightarrow> Inr (Some s', nextState)))"

text \<open>
  Modelled from the spec: freezing a state object, with the objects it holds, as the
  mutation guard of the state-management library does.
\<close>

definition deepFreeze :: "'fs State \<Rightarrow> 'fs State" where
  "deepFreeze s = s\<lparr>frozen := True\<rparr>"

text \<open>
  Modelled from the spec: \<open>storeFreeze\<close>, the mutation guard that wraps the combined
  transition function of the development variant. It freezes the state it is given,
  runs the wrapped transition function on it, and freezes the result, so that a
  feature transition function that writes into its input raises.
\<close>

definition storeFreeze :: "('fs, 'a) ActionReducer \<Rightarrow> ('fs, 'a) ActionReducer" where
  "storeFreeze reducer state action =
     (case state of
        None \<Rightarrow>
          (case reducer (Some (deepFreeze empty_object)) action of
             Inl e \<Rightarrow> Inl e
           | Inr (_, nextState) \<Rightarrow> Inr (None, deepFreeze nextState))
      | Some s \<Rightarrow>
          (case reducer (Some (deepFreeze s)) action of
             Inl e \<Rightarrow> Inl e
           | Inr (s', nextState) \<Rightarrow> Inr (s', deepFreeze nextState)))"

text \<open>
  \<open>compose\<close>, as the comments of the root module describe it: the value is chained
  through the composed functions, applied from right to left.
\<close>

definition compose :: "('b \<Rightarrow> 'c) \<Rightarrow> ('a \<Rightarrow> 'b) \<Rightarrow> 'a \<Rightarrow> 'c" where
  "compose f g x = f (g x)"

text \<open>
  The feature modules imported by the root module, each with its transition function,
  and the build-time environment.
\<close>

record ('fs, 'a) modules =
  fromRelease_reducer :: "('fs, 'a) FeatureReducer"
  fromVideos_reducer :: "('fs, 'a) FeatureReducer"
  fromPlayer_reducer :: "('fs, 'a) FeatureReducer"
  fromPlaylist_reducer :: "('fs, 'a) FeatureReducer"
  fromCollection_reducer :: "('fs, 'a) FeatureReducer"
  fromWantlist_reducer :: "('fs, 'a) FeatureReducer"
  fromSearch_reducer :: "('fs, 'a) FeatureReducer"
  fromSales_reducer :: "('fs, 'a) FeatureReducer"
  fromUser_reducer :: "('fs, 'a) FeatureReducer"
  fromRouter_routerReducer :: "('fs, 'a) FeatureReducer"

record environment =
  production :: bool

definition reducers ::
  "('fs, 'a) modules \<Rightarrow> (string \<times> ('fs, 'a) FeatureReducer) list" where
  "reducers m =
     [(''release'', fromRelease_reducer m),
      (''videos'', fromVideos_reducer m),
      (''player'', fromPlayer_reducer m),
      (''playlist'', fromPlaylist_reducer m),
      (''collection'', fromCollection_reducer m),
      (''wantlist'', fromWantlist_reducer m),
      (''search'', fromSearch_reducer m),
      (''sales'', fromSales_reducer m),
      (''user'', fromUser_reducer m),
      (''router'', fromRouter_routerReducer m)]"

definition developmentReducer :: "('fs, 'a) modules \<Rightarrow> ('fs, 'a) ActionReducer" where
  "developmentReducer m = compose storeFreeze combineReducers (reducers m)"

definition productionReducer :: "('fs, 'a) modules \<Rightarrow> ('fs, 'a) ActionReducer" where
  "productionReducer m = combineReducers (reducers m)"

text \<open>
  \<open>reducer\<close>: the root transition function. \<open>environment.production\<close> is read by each
  call, so the environment is an argument of the call.
\<close>

definition reducer ::
  "environment \<Rightarrow> ('fs, 'a) modules \<Rightarrow> ('fs, 'a) ActionReducer" where
  "reducer env m state action =
     (if \<not> production env then developmentReducer m state action
      else productionReducer m state action)"

text \<open>
  The root module in time. Its top-level statements run once, when the module is
  loaded: they build the two constants \<open>developmentReducer\<close> and \<open>productionReducer\<close>
  and read nothing of the environment, whatever it is at that time. The body of
  \<open>reducer\<close> runs at every call and reads \<open>environment.production\<close> then.
  \<open>load_module\<close> takes the environment as it is when the module is loaded,
  \<open>reducer_call\<close> the environment as it is when \<open>reducer\<close> is called.
\<close>

record ('fs, 'a) RootModule =
  developmentReducer_const :: "('fs, 'a) ActionReducer"
  productionReducer_const :: "('fs, 'a) ActionReducer"

definition load_module ::
  "environment \<Rightarrow> ('fs, 'a) modules \<Rightarrow> ('fs, 'a) RootModule" where
  "load_module env_when_loaded m =
     \<lparr>developmentReducer_const = compose storeFreeze combineReducers (reducers m),
      productionReducer_const = combineReducers (reducers m)\<rparr>"

definition reducer_call ::
  "('fs, 'a) RootModule \<Rightarrow> environment \<Rightarrow> ('fs, 'a) ActionReducer" where
  "reducer_call loaded env state action =
     (if \<not> production env then developmentReducer_const loaded state action
      else productionReducer_const loaded state action)"

section \<open>Properties stated about the results\<close>

text \<open>
  A result of \<open>getNextPreviousVideos\<close> names no video at all: it did not raise, and it
  is either no object or an object whose \<open>next\<close> and \<open>prev\<close> are both absent.
\<close>

definition neutral_result :: "error + ('e, 'w) NextPrevious_scheme nullable \<Rightarrow> bool" where
  "neutral_result r =
     (case r of
        Inl _ \<Rightarrow> False
      | Inr (Def np) \<Rightarrow> absent (next_video np) \<and> absent (prev_video np)
      | Inr _ \<Rightarrow> True)"

text \<open>
  What \<open>combination\<close> collects when no feature transition function writes into its
  input: the accumulator with, under every key of \<open>rs\<close>, the value returned for the
  slice of that key.
\<close>

definition gathered ::
  "(string \<times> ('fs, 'a) FeatureReducer) list \<Rightarrow> 'fs State \<Rightarrow> 'a \<Rightarrow> 'fs State
     \<Rightarrow> 'fs State" where
  "gathered rs state action acc =
     acc\<lparr>slice := (\<lambda>key. case map_of rs key of
                           None \<Rightarrow> slice acc key
                         | Some r \<Rightarrow> returned (r (slice state key) action))\<rparr>"

text \<open>
  What \<open>combination\<close> leaves of the input state: under every key of \<open>rs\<close> whose
  transition function writes into its input, the content written.
\<close>

definition written ::
  "(string \<times> ('fs, 'a) FeatureReducer) list \<Rightarrow> 'fs State \<Rightarrow> 'a \<Rightarrow> 'fs State" where
  "written rs state action =
     state\<lparr>slice := (\<lambda>key. case map_of rs key of
                             None \<Rightarrow> slice state key
                           | Some r \<Rightarrow>
                               (case mutation (r (slice state key) action) of
                                  None \<Rightarrow> slice state key
                                | Some v \<Rightarrow> Def v))\<rparr>"

section \<open>Example data\<close>

text \<open>Three playlist entries and three playlists, with the identifiers 1, 2 and 3.\<close>

definition entry_A :: "nat PlaylistVideo" where
  "entry_A = \<lparr>video = \<lparr>id_Video = 1\<rparr>\<rparr>"

definition entry_B :: "nat PlaylistVideo" where
  "entry_B = \<lparr>video = \<lparr>id_Video = 2\<rparr>\<rparr>"

definition entry_C :: "nat PlaylistVideo" where
  "entry_C = \<lparr>video = \<lparr>id_Video = 3\<rparr>\<rparr>"

definition playlist_P1 :: "(nat, nat PlaylistVideo) Playlist" where
  "playlist_P1 = \<lparr>id_Playlist = 1, videos_Playlist = Def [entry_A]\<rparr>"

definition playlist_P2 :: "(nat, nat PlaylistVideo) Playlist" where
  "playlist_P2 = \<lparr>id_Playlist = 2, videos_Playlist = Def []\<rparr>"

definition playlist_P3 :: "(nat, nat PlaylistVideo) Playlist" where
  "playlist_P3 = \<lparr>id_Playlist = 3, videos_Playlist = Undefined\<rparr>"

text \<open>
  Feature transition functions over counters. \<open>initial_zero\<close> returns its state, and
  0 when it has none, writing nothing. \<open>increment_in_place\<close> adds one to the counter
  inside its input object and returns that object.
\<close>

definition initial_zero :: "(nat, unit) FeatureReducer" where
  "initial_zero state action =
     (case state of Def n \<Rightarrow> Run None (Def n) | _ \<Rightarrow> Run None (Def 0))"

definition increment_in_place :: "(nat, unit) FeatureReducer" where
  "increment_in_place state action =
     (case state of
        Def n \<Rightarrow> Run (Some (Suc n)) (Def (Suc n))
      | _ \<Rightarrow> Run None (Def 0))"

definition pure_modules :: "(nat, unit) modules" where
  "pure_modules =
     \<lparr>fromRelease_reducer = initial_zero, fromVideos_reducer = initial_zero,
      fromPlayer_reducer = initial_zero, fromPlaylist_reducer = initial_zero,
      fromCollection_reducer = initial_zero, fromWantlist_reducer = initial_zero,
      fromSearch_reducer = initial_zero, fromSales_reducer = initial_zero,
      fromUser_reducer = initial_zero, fromRouter_routerReducer = initial_zero\<rparr>"

definition mutating_modules :: "(nat, unit) modules" where
  "mutating_modules = pure_modules\<lparr>fromPlayer_reducer := increment_in_place\<rparr>"

text \<open>
  \<open>write_always\<close> assigns 1 into its input whatever it is given, also when it is
  given no state.
\<close>

definition write_always :: "(nat, unit) FeatureReducer" where
  "write_always state action = Run (Some 1) (Def 1)"

definition writing_modules :: "(nat, unit) modules" where
  "writing_modules = pure_modules\<lparr>fromPlayer_reducer := write_always\<rparr>"

definition zero_state :: "nat State" where
  "zero_state = \<lparr>frozen = False, slice = (\<lambda>key. Def 0)\<rparr>"

section \<open>The search-box component: its bindings\<close>



section \<open>Array helpers\<close>

lemma indexOf_lower: "- 1 \<le> indexOf ys x"
  by (induction ys) (auto simp: Let_def)

lemma indexOf_upper: "indexOf ys x < int (length ys)"
  by (induction ys) (auto simp: Let_def)

lemma indexOf_notin: "x \<notin> set ys \<Longrightarrow> indexOf ys x = - 1"
  by (induction ys) (auto simp: Let_def)

lemma indexOf_append_last: "x \<notin> set ys \<Longrightarrow> indexOf (ys @ [x]) x = int (length ys)"
  by (induction ys) (auto simp: Let_def)

lemma filter_js_total: "filter_js (\<lambda>p. Inr (P p)) ps = Inr (filter P ps)"
  by (induction ps) auto

lemma filter_js_raises: "filter_js (\<lambda>p. Inl e) (p # ps) = Inl e"
  by simp

section \<open>The next/previous selector\<close>

lemma getNextPreviousVideos_total: "\<exists>r. getNextPreviousVideos vs cur = Inr r"
  by (simp add: getNextPreviousVideos_def Let_def split: nullable.splits)

text \<open>
  C1, as stated, fails: with the single entry A in the list and nothing playing, the
  result is not neutral, since its \<open>next\<close> is A.
\<close>

theorem getNextPreviousVideos_nothing_playing_not_neutral:
  "\<not> neutral_result
        (getNextPreviousVideos (Def [entry_A]) (Undefined :: nat Video nullable))"
  by (simp add: neutral_result_def getNextPreviousVideos_def current_id_def at_index_def
      absent_def entry_A_def)

text \<open>
  C1, amended: for every non-empty video list, when the currently playing video is
  undefined, the selector does not raise and returns an object whose \<open>next\<close> is the
  first video of the list and whose \<open>prev\<close> is \<open>null\<close>.
\<close>

theorem getNextPreviousVideos_nothing_playing:
  "getNextPreviousVideos (Def (v # rest)) Undefined =
     Inr (Def \<lparr>next_video = Def v, prev_video = Null\<rparr>)"
proof -
  have "indexOf (map (\<lambda>v. Def (id_Video (video v))) (v # rest)) Undefined = - 1"
    by (rule indexOf_notin) auto
  then show ?thesis
    by (simp add: getNextPreviousVideos_def current_id_def at_index_def)
qed

text \<open>
  C4: for the list [A, B, C] of different videos, with B playing, the selector returns
  \<open>next = C\<close> and \<open>prev = A\<close>. The entries are told apart by the identifiers of their
  videos, and the playing video is B when it has B's identifier; that A and B differ
  is all the code needs.
\<close>

theorem getNextPreviousVideos_middle:
  "id_Video (video a) \<noteq> id_Video (video b) \<Longrightarrow> id_Video cur = id_Video (video b) \<Longrightarrow>
   getNextPreviousVideos (Def [a, b, c]) (Def cur) =
     Inr (Def \<lparr>next_video = Def c, prev_video = Def a\<rparr>)"
  by (simp add: getNextPreviousVideos_def current_id_def at_index_def)

text \<open>C4 at the entries A, B and C with the identifiers 1, 2 and 3, video 2 playing.\<close>

theorem getNextPreviousVideos_middle_witness:
  "id_Video (video entry_A) \<noteq> id_Video (video entry_B)
   \<and> id_Video \<lparr>id_Video = 2 :: nat\<rparr> = id_Video (video entry_B)
   \<and> getNextPreviousVideos (Def [entry_A, entry_B, entry_C]) (Def \<lparr>id_Video = 2 :: nat\<rparr>) =
       Inr (Def \<lparr>next_video = Def entry_C, prev_video = Def entry_A\<rparr>)"
proof -
  have h1: "id_Video (video entry_A) \<noteq> id_Video (video entry_B)"
    by (simp add: entry_A_def entry_B_def)
  have h2: "id_Video \<lparr>id_Video = 2 :: nat\<rparr> = id_Video (video entry_B)"
    by (simp add: entry_B_def)
  show ?thesis
    using h1 h2 getNextPreviousVideos_middle [OF h1 h2, of entry_C] by simp
qed

text \<open>
  C5, as stated, fails for a list in which the playing video occurs twice. In
  [A, B, A] with A playing, the playing video is the last entry, yet \<open>next\<close> is B and
  not the first entry: \<open>indexOf\<close> finds the identifier at the first position.
\<close>

theorem getNextPreviousVideos_repeated_video_last:
  "id_Video (video (last [entry_A, entry_B, entry_A])) = id_Video \<lparr>id_Video = 1 :: nat\<rparr>
   \<and> getNextPreviousVideos (Def [entry_A, entry_B, entry_A]) (Def \<lparr>id_Video = 1 :: nat\<rparr>) =
       Inr (Def \<lparr>next_video = Def entry_B, prev_video = Null\<rparr>)
   \<and> Def entry_B \<noteq> Def (hd [entry_A, entry_B, entry_A])"
  by (simp add: getNextPreviousVideos_def current_id_def at_index_def entry_A_def
      entry_B_def)

text \<open>
  C5, amended: for the list [A, B, C] of different videos, with C playing, the selector
  wraps: \<open>next = A\<close> and \<open>prev = B\<close>. In general, for every video list whose first
  entry is the playing video, \<open>prev\<close> is \<open>null\<close> (and \<open>next\<close> is the second entry, or
  the first one in a list of one); and for every video list whose last entry is the
  playing video, that video occurring at no earlier position, \<open>next\<close> is the first
  entry (and \<open>prev\<close> the entry before the last, or \<open>null\<close> in a list of one).
\<close>

theorem getNextPreviousVideos_first_last:
  "(id_Video (video a) \<noteq> id_Video (video c) \<and> id_Video (video b) \<noteq> id_Video (video c)
      \<and> id_Video cur = id_Video (video c) \<longrightarrow>
    getNextPreviousVideos (Def [a, b, c]) (Def cur) =
      Inr (Def \<lparr>next_video = Def a, prev_video = Def b\<rparr>))
   \<and> (id_Video cur = id_Video (video v) \<longrightarrow>
    getNextPreviousVideos (Def (v # rest)) (Def cur) =
      Inr (Def \<lparr>next_video = (case rest of [] \<Rightarrow> Def v | w # _ \<Rightarrow> Def w),
                prev_video = Null\<rparr>))
   \<and> (id_Video cur = id_Video (video l)
        \<and> id_Video cur \<notin> set (map (\<lambda>v. id_Video (video v)) front) \<longrightarrow>
    getNextPreviousVideos (Def (front @ [l])) (Def cur) =
      Inr (Def \<lparr>next_video = Def (hd (front @ [l])),
                prev_video = (if front = [] then Null else Def (last front))\<rparr>))"
proof (intro conjI impI)
  assume "id_Video (video a) \<noteq> id_Video (video c) \<and> id_Video (video b) \<noteq> id_Video (video c)
      \<and> id_Video cur = id_Video (video c)"
  then show "getNextPreviousVideos (Def [a, b, c]) (Def cur) =
      Inr (Def \<lparr>next_video = Def a, prev_video = Def b\<rparr>)"
    by (simp add: getNextPreviousVideos_def current_id_def at_index_def)
next
  assume "id_Video cur = id_Video (video v)"
  then show "getNextPreviousVideos (Def (v # rest)) (Def cur) =
      Inr (Def \<lparr>next_video = (case rest of [] \<Rightarrow> Def v | w # _ \<Rightarrow> Def w),
                prev_video = Null\<rparr>)"
    by (simp add: getNextPreviousVideos_def current_id_def at_index_def split: list.splits)
next
  assume h: "id_Video cur = id_Video (video l)
        \<and> id_Video cur \<notin> set (map (\<lambda>v. id_Video (video v)) front)"
  let ?ids = "map (\<lambda>v. Def (id_Video (video v))) front"
  have "Def (id_Video cur) \<notin> set ?ids"
    using h by auto
  then have "indexOf (?ids @ [Def (id_Video cur)]) (Def (id_Video cur)) = int (length ?ids)"
    by (rule indexOf_append_last)
  then have ix:
    "indexOf (map (\<lambda>v. Def (id_Video (video v))) (front @ [l])) (Def (id_Video cur))
      = int (length front)"
    using h by simp
  show "getNextPreviousVideos (Def (front @ [l])) (Def cur) =
      Inr (Def \<lparr>next_video = Def (hd (front @ [l])),
                prev_video = (if front = [] then Null else Def (last front))\<rparr>)"
  proof (cases "front = []")
    case True
    then show ?thesis
      using ix by (simp add: getNextPreviousVideos_def current_id_def at_index_def)
  next
    case False
    then have "(front @ [l]) ! (length front - Suc 0) = last front"
      by (simp add: nth_append last_conv_nth)
    moreover have "(front @ [l]) ! 0 = hd front"
      using False by (simp add: nth_append hd_conv_nth)
    ultimately show ?thesis
      using ix False
      by (simp add: getNextPreviousVideos_def current_id_def at_index_def Let_def
          nat_diff_distrib')
  qed
qed

text \<open>
  C5 at the entries A, B and C with the identifiers 1, 2 and 3: video 3 playing in
  [A, B, C], video 1 playing in [A, B, C], and video 3 playing in [A, B] @ [C].
\<close>

theorem getNextPreviousVideos_first_last_witness:
  "getNextPreviousVideos (Def [entry_A, entry_B, entry_C]) (Def \<lparr>id_Video = 3 :: nat\<rparr>) =
     Inr (Def \<lparr>next_video = Def entry_A, prev_video = Def entry_B\<rparr>)
   \<and> getNextPreviousVideos (Def (entry_A # [entry_B, entry_C])) (Def \<lparr>id_Video = 1 :: nat\<rparr>) =
     Inr (Def \<lparr>next_video = Def entry_B, prev_video = Null\<rparr>)
   \<and> getNextPreviousVideos (Def ([entry_A, entry_B] @ [entry_C])) (Def \<lparr>id_Video = 3 :: nat\<rparr>) =
     Inr (Def \<lparr>next_video = Def entry_A, prev_video = Def entry_B\<rparr>)"
proof -
  have ids: "id_Video (video entry_A) = 1" "id_Video (video entry_B) = 2"
    "id_Video (video entry_C) = 3"
    by (simp_all add: entry_A_def entry_B_def entry_C_def)
  have t1: "getNextPreviousVideos (Def [entry_A, entry_B, entry_C])
              (Def \<lparr>id_Video = 3 :: nat\<rparr>) =
            Inr (Def \<lparr>next_video = Def entry_A, prev_video = Def entry_B\<rparr>)"
    using getNextPreviousVideos_first_last
      [where a = entry_A and b = entry_B and c = entry_C and cur = "\<lparr>id_Video = 3 :: nat\<rparr>"
         and v = entry_C and rest = "[]" and l = entry_C and front = "[]"] ids
    by simp
  have t2: "getNextPreviousVideos (Def (entry_A # [entry_B, entry_C]))
              (Def \<lparr>id_Video = 1 :: nat\<rparr>) =
            Inr (Def \<lparr>next_video = Def entry_B, prev_video = Null\<rparr>)"
    using getNextPreviousVideos_first_last
      [where a = entry_B and b = entry_C and c = entry_A and cur = "\<lparr>id_Video = 1 :: nat\<rparr>"
         and v = entry_A and rest = "[entry_B, entry_C]" and l = entry_A and front = "[]"] ids
    by simp
  have t3: "getNextPreviousVideos (Def ([entry_A, entry_B] @ [entry_C]))
              (Def \<lparr>id_Video = 3 :: nat\<rparr>) =
            Inr (Def \<lparr>next_video = Def entry_A, prev_video = Def entry_B\<rparr>)"
    using getNextPreviousVideos_first_last
      [where a = entry_A and b = entry_B and c = entry_C and cur = "\<lparr>id_Video = 3 :: nat\<rparr>"
         and v = entry_C and rest = "[]" and l = entry_C and front = "[entry_A, entry_B]"] ids
    by simp
  show ?thesis
    using t1 t2 t3 by simp
qed

text \<open>
  C10: for a video list that is present but empty the selector does not raise and
  returns an object whose \<open>next\<close> is \<open>undefined\<close> and whose \<open>prev\<close> is \<open>null\<close>, also
  when the list is what \<open>getSelectedPlaylistVideos\<close> reads from the current playlist;
  and it returns \<open>null\<close> exactly when the video list is absent.
\<close>

theorem getNextPreviousVideos_empty_or_absent:
  "getNextPreviousVideos (Def []) cur =
     Inr (Def \<lparr>next_video = Undefined, prev_video = Null\<rparr>)
   \<and> getNextPreviousVideos
        (getSelectedPlaylistVideos (Def (p\<lparr>videos_Playlist := Def []\<rparr>))) cur =
      Inr (Def \<lparr>next_video = Undefined, prev_video = Null\<rparr>)
   \<and> (getNextPreviousVideos vs cur = Inr Null \<longleftrightarrow> absent vs)"
  by (simp add: getNextPreviousVideos_def getSelectedPlaylistVideos_def at_index_def
      absent_def Let_def split: nullable.splits)

section \<open>The other-playlists selector\<close>

text \<open>
  C2: the selector is claimed to return a neutral result, and not to raise, also when
  an input is absent. With the playlists [P1] and no current playlist it raises a
  \<open>TypeError\<close>, the callback reading \<open>current.id\<close>; with no playlists list it raises
  as well.
\<close>

theorem getPlaylistsForList_absent_input_raises:
  "getPlaylistsForList (Def [playlist_P1]) Undefined = Inl TypeError
   \<and> getPlaylistsForList Undefined (Def playlist_P1) = Inl TypeError"
  by (simp add: getPlaylistsForList_def)

text \<open>
  C6: for every playlists list and every defined current playlist the selector returns
  exactly the playlists whose identifier differs from the current one's, in their
  order; so for [P1, P2, P3] of different playlists and the current playlist P2 it
  returns [P1, P3].
\<close>

theorem getPlaylistsForList_others:
  "getPlaylistsForList (Def ps) (Def c) =
     Inr (filter (\<lambda>p. id_Playlist p \<noteq> id_Playlist c) ps)
   \<and> (id_Playlist p1 \<noteq> id_Playlist p2 \<and> id_Playlist p3 \<noteq> id_Playlist p2 \<longrightarrow>
       getPlaylistsForList (Def [p1, p2, p3]) (Def p2) = Inr [p1, p3])"
  by (simp add: getPlaylistsForList_def filter_js_total)

text \<open>C6 at the playlists P1, P2 and P3 with the identifiers 1, 2 and 3.\<close>

theorem getPlaylistsForList_others_witness:
  "id_Playlist playlist_P1 \<noteq> id_Playlist playlist_P2
   \<and> id_Playlist playlist_P3 \<noteq> id_Playlist playlist_P2
   \<and> getPlaylistsForList (Def [playlist_P1, playlist_P2, playlist_P3]) (Def playlist_P2) =
       Inr [playlist_P1, playlist_P3]"
proof -
  have h: "id_Playlist playlist_P1 \<noteq> id_Playlist playlist_P2
           \<and> id_Playlist playlist_P3 \<noteq> id_Playlist playlist_P2"
    by (simp add: playlist_P1_def playlist_P2_def playlist_P3_def)
  show ?thesis
    using h getPlaylistsForList_others
      [of "[playlist_P1, playlist_P2, playlist_P3]" playlist_P2 playlist_P1 playlist_P2
        playlist_P3]
    by simp
qed

section \<open>The root transition function\<close>

lemma combination_pure:
  "distinct (map fst rs) \<Longrightarrow>
   \<forall>(key, r) \<in> set rs. mutation (r (slice state key) action) = None \<Longrightarrow>
   combination rs state action acc = Inr (state, gathered rs state action acc)"
proof (induction rs arbitrary: acc)
  case Nil
  then show ?case by (simp add: gathered_def)
next
  case (Cons p rs)
  obtain key r where p: "p = (key, r)" by (cases p)
  have notin: "key \<notin> fst ` set rs" using Cons.prems(1) p by simp
  have m: "mutation (r (slice state key) action) = None" using Cons.prems(2) p by simp
  have rest: "\<forall>(key, r) \<in> set rs. mutation (r (slice state key) action) = None"
    using Cons.prems(2) by simp
  have d: "distinct (map fst rs)" using Cons.prems(1) by simp
  have upd: "state\<lparr>slice := (slice state)(key := slice state key)\<rparr> = state" by simp
  have "gathered rs state action
          (acc\<lparr>slice := (slice acc)(key := returned (r (slice state key) action))\<rparr>)
        = gathered ((key, r) # rs) state action acc"
  proof (rule State.equality)
    have none: "map_of rs key = None" using notin by (simp add: map_of_eq_None_iff)
    show "slice (gathered rs state action
            (acc\<lparr>slice := (slice acc)(key := returned (r (slice state key) action))\<rparr>))
        = slice (gathered ((key, r) # rs) state action acc)"
      using none by (auto simp: gathered_def fun_eq_iff split: option.splits)
  qed (simp_all add: gathered_def)
  then show ?case
    using Cons.IH[OF d rest] m p by (simp add: call_reducer_def upd)
qed

lemma combination_frozen_mutation:
  "(key, r) \<in> set rs \<Longrightarrow> frozen state \<Longrightarrow> mutation (r (slice state key) action) \<noteq> None \<Longrightarrow>
   combination rs state action acc = Inl TypeError"
proof (induction rs arbitrary: acc)
  case Nil
  then show ?case by simp
next
  case (Cons p rs)
  obtain k' r' where p: "p = (k', r')" by (cases p)
  show ?case
  proof (cases "mutation (r' (slice state k') action)")
    case None
    have upd: "state\<lparr>slice := (slice state)(k' := slice state k')\<rparr> = state" by simp
    from None Cons.prems p have "(key, r) \<in> set rs" by auto
    then show ?thesis using Cons.IH Cons.prems None p by (simp add: call_reducer_def upd)
  next
    case (Some v)
    then show ?thesis using Cons.prems(2) p by (simp add: call_reducer_def)
  qed
qed

lemma combination_unfrozen:
  assumes "distinct (map fst rs)" and "\<not> frozen state"
    and "\<forall>(key, r) \<in> set rs.
           mutation (r (slice state key) action) \<noteq> None \<longrightarrow> \<not> absent (slice state key)"
  shows "combination rs state action acc
         = Inr (written rs state action, gathered rs state action acc)"
  using assms
proof (induction rs arbitrary: state acc)
  case Nil
  then show ?case by (simp add: gathered_def written_def)
next
  case (Cons p rs)
  obtain k r where p: "p = (k, r)" by (cases p)
  have notin: "k \<notin> fst ` set rs" using Cons.prems(1) p by simp
  have d: "distinct (map fst rs)" using Cons.prems(1) by simp
  define after where
    "after = (case mutation (r (slice state k) action) of
                None \<Rightarrow> slice state k | Some v \<Rightarrow> Def v)"
  define st1 where "st1 = state\<lparr>slice := (slice state)(k := after)\<rparr>"
  define acc1 where
    "acc1 = acc\<lparr>slice := (slice acc)(k := returned (r (slice state k) action))\<rparr>"
  have ok: "mutation (r (slice state k) action) \<noteq> None \<longrightarrow> \<not> absent (slice state k)"
    using Cons.prems(3) p by simp
  have call: "call_reducer (frozen state) (slice state k) (r (slice state k) action)
      = Inr (after, returned (r (slice state k) action))"
    using Cons.prems(2) ok by (auto simp: call_reducer_def after_def split: option.splits)
  have step: "combination (p # rs) state action acc = combination rs st1 action acc1"
    using call p by (simp add: st1_def acc1_def)
  have same: "slice st1 key = slice state key" if "key \<in> fst ` set rs" for key
    using notin that by (auto simp: st1_def)
  have nf: "\<not> frozen st1" using Cons.prems(2) by (simp add: st1_def)
  have h3: "\<forall>(key, r) \<in> set rs.
              mutation (r (slice st1 key) action) \<noteq> None \<longrightarrow> \<not> absent (slice st1 key)"
  proof -
    have "mutation (r' (slice st1 key) action) \<noteq> None \<longrightarrow> \<not> absent (slice st1 key)"
      if a: "(key, r') \<in> set rs" for key r'
    proof -
      from a have "key \<in> fst ` set rs" by force
      then have "slice st1 key = slice state key" using same by simp
      with a Cons.prems(3) show ?thesis by auto
    qed
    then show ?thesis by auto
  qed
  have r: "combination rs st1 action acc1
           = Inr (written rs st1 action, gathered rs st1 action acc1)"
    by (rule Cons.IH[OF d nf h3])
  have in_rs: "x \<in> fst ` set rs" if "map_of rs x = Some r'" for x r'
    using that by (metis map_of_eq_None_iff option.distinct(1))
  have g: "gathered rs st1 action acc1 = gathered (p # rs) state action acc"
  proof (rule State.equality)
    have "slice (gathered rs st1 action acc1) x
          = slice (gathered (p # rs) state action acc) x" for x
    proof (cases "map_of rs x")
      case None
      then show ?thesis using p by (simp add: gathered_def acc1_def)
    next
      case (Some r')
      then have "x \<in> fst ` set rs" by (rule in_rs)
      then have "slice st1 x = slice state x" "x \<noteq> k" using same notin by auto
      then show ?thesis using Some p by (simp add: gathered_def)
    qed
    then show "slice (gathered rs st1 action acc1)
               = slice (gathered (p # rs) state action acc)"
      by (simp add: fun_eq_iff)
  qed (simp_all add: gathered_def acc1_def)
  have w: "written rs st1 action = written (p # rs) state action"
  proof (rule State.equality)
    have "slice (written rs st1 action) x = slice (written (p # rs) state action) x" for x
    proof (cases "map_of rs x")
      case None
      then show ?thesis using p
        by (auto simp: written_def st1_def after_def split: option.splits)
    next
      case (Some r')
      then have "x \<in> fst ` set rs" by (rule in_rs)
      then have "slice st1 x = slice state x" "x \<noteq> k" using same notin by auto
      then show ?thesis using Some p
        by (simp add: written_def split: option.splits)
    qed
    then show "slice (written rs st1 action) = slice (written (p # rs) state action)"
      by (simp add: fun_eq_iff)
  qed (simp_all add: written_def st1_def)
  show ?case using step r g w by simp
qed

lemma written_key:
  assumes "(key, r) \<in> set rs" and "distinct (map fst rs)"
    and "mutation (r (slice state key) action) = Some v"
  shows "slice (written rs state action) key = Def v"
proof -
  have "map_of rs key = Some r"
    by (rule map_of_is_SomeI[OF assms(2) assms(1)])
  then show ?thesis using assms(3) by (simp add: written_def)
qed

lemma distinct_reducers: "distinct (map fst (reducers m))"
  by (simp add: reducers_def)

lemma keys_reducers: "map fst (reducers m) = State_keys"
  by (simp add: reducers_def State_keys_def)

lemma gathered_deepFreeze: "gathered rs (deepFreeze s) action acc = gathered rs s action acc"
  by (simp add: gathered_def deepFreeze_def cong: option.case_cong)

lemma productionReducer_no_mutation:
  assumes "\<forall>(key, r) \<in> set (reducers m). mutation (r (slice s key) action) = None"
  shows "productionReducer m (Some s) action
         = Inr (Some s, gathered (reducers m) s action empty_object)"
  using combination_pure[OF distinct_reducers assms, of empty_object]
  by (simp add: productionReducer_def combineReducers_def)

lemma productionReducer_no_state:
  assumes "\<forall>(key, r) \<in> set (reducers m). mutation (r Undefined action) = None"
  shows "productionReducer m None action
         = Inr (None, gathered (reducers m) empty_object action empty_object)"
proof -
  have "\<forall>(key, r) \<in> set (reducers m). mutation (r (slice empty_object key) action) = None"
    using assms by (simp add: empty_object_def)
  from combination_pure[OF distinct_reducers this, of empty_object]
  show ?thesis by (simp add: productionReducer_def combineReducers_def)
qed

lemma developmentReducer_no_mutation:
  assumes "\<forall>(key, r) \<in> set (reducers m). mutation (r (slice s key) action) = None"
  shows "developmentReducer m (Some s) action
         = Inr (Some (deepFreeze s), deepFreeze (gathered (reducers m) s action empty_object))"
proof -
  have "\<forall>(key, r) \<in> set (reducers m). mutation (r (slice (deepFreeze s) key) action) = None"
    using assms by (simp add: deepFreeze_def)
  from combination_pure[OF distinct_reducers this, of empty_object]
  show ?thesis
    by (simp add: developmentReducer_def compose_def storeFreeze_def combineReducers_def
        gathered_deepFreeze)
qed

lemma developmentReducer_no_state:
  assumes "\<forall>(key, r) \<in> set (reducers m). mutation (r Undefined action) = None"
  shows "developmentReducer m None action
         = Inr (None, deepFreeze (gathered (reducers m) empty_object action empty_object))"
proof -
  have "\<forall>(key, r) \<in> set (reducers m).
          mutation (r (slice (deepFreeze empty_object) key) action) = None"
    using assms by (simp add: deepFreeze_def empty_object_def)
  from combination_pure[OF distinct_reducers this, of empty_object]
  show ?thesis
    by (simp add: developmentReducer_def compose_def storeFreeze_def combineReducers_def
        gathered_deepFreeze)
qed

lemma gathered_populated:
  assumes "\<forall>(key, r) \<in> set rs. returned (r (slice state key) action) \<noteq> Undefined"
    and "key \<in> fst ` set rs"
  shows "slice (gathered rs state action acc) key \<noteq> Undefined"
proof -
  from assms(2) obtain r where r: "map_of rs key = Some r"
    by (metis map_of_eq_None_iff not_Some_eq)
  then have "(key, r) \<in> set rs" by (rule map_of_SomeD)
  then show ?thesis using assms(1) r by (auto simp: gathered_def)
qed

lemma gathered_slice:
  assumes "(key, r) \<in> set rs" and "distinct (map fst rs)"
  shows "slice (gathered rs state action acc) key = returned (r (slice state key) action)"
proof -
  have "map_of rs key = Some r"
    by (rule map_of_is_SomeI[OF assms(2) assms(1)])
  then show ?thesis by (simp add: gathered_def)
qed

text \<open>
  C7: for every action, when every feature transition function, called with no state,
  returns a value that is not \<open>undefined\<close> (writing into nothing, there being no
  input object), the root transition function called with no prior state does not
  raise and returns a global state that holds, under the key of every feature, the
  value that the feature's transition function returns when called with \<open>undefined\<close>
  and the action; so every declared feature key (release, videos, player, playlist,
  collection, wantlist, search, sales, user, router) holds a value that is not
  \<open>undefined\<close>. This holds in the development and in the production variant.
\<close>

theorem reducer_first_call_populated:
  assumes "\<forall>(key, r) \<in> set (reducers m).
             mutation (r Undefined action) = None \<and> returned (r Undefined action) \<noteq> Undefined"
  shows "\<exists>nextState. reducer env m None action = Inr (None, nextState)
           \<and> (\<forall>(key, r) \<in> set (reducers m).
                 slice nextState key = returned (r Undefined action))
           \<and> (\<forall>key \<in> set State_keys. slice nextState key \<noteq> Undefined)"
proof -
  have nm: "\<forall>(key, r) \<in> set (reducers m). mutation (r Undefined action) = None"
    using assms by auto
  have ret: "\<forall>(key, r) \<in> set (reducers m).
               returned (r (slice empty_object key) action) \<noteq> Undefined"
    using assms by (auto simp: empty_object_def)
  let ?n = "gathered (reducers m) empty_object action (empty_object :: 'a State)"
  have keys: "set State_keys = fst ` set (reducers m)"
    using keys_reducers[of m] by (metis set_map)
  have pop: "\<forall>key \<in> set State_keys. slice ?n key \<noteq> Undefined"
    using gathered_populated[OF ret] keys by blast
  have val: "\<forall>(key, r) \<in> set (reducers m). slice ?n key = returned (r Undefined action)"
  proof -
    have "slice ?n key = returned (r Undefined action)"
      if "(key, r) \<in> set (reducers m)" for key r
      using gathered_slice[OF that distinct_reducers, of empty_object action empty_object]
      by (simp add: empty_object_def)
    then show ?thesis by auto
  qed
  show ?thesis
  proof (cases "production env")
    case True
    then have "reducer env m None action = Inr (None, ?n)"
      using productionReducer_no_state[OF nm] by (simp add: reducer_def)
    then show ?thesis using pop val by blast
  next
    case False
    then have "reducer env m None action = Inr (None, deepFreeze ?n)"
      using developmentReducer_no_state[OF nm] by (simp add: reducer_def)
    moreover have "slice (deepFreeze ?n) = slice ?n" by (simp add: deepFreeze_def)
    ultimately show ?thesis using pop val by auto
  qed
qed

lemma reducer_call_load: "reducer_call (load_module env0 m) env = reducer env m"
  by (simp add: fun_eq_iff reducer_call_def load_module_def reducer_def
      developmentReducer_def productionReducer_def)

text \<open>
  C8: let one feature transition function write into its input state on this call,
  and let the root module have been loaded under any environment. A call made while the
  flag says non-production raises, whatever the state given (frozen or not), and so
  does a call with no prior state when the function writes also then. A call
  made while the flag says production does not raise, on a state that nothing has
  frozen (the production variant freezes nothing) and whose slices written into are
  objects: it returns the collected results, and the input state is left with the
  content written into it. The flag is evaluated by every call: the outcome of a call
  is that of the variant chosen by the flag as it is at the call, and does not depend
  on the flag as it was when the module was loaded.
\<close>

theorem reducer_mutation_guard:
  assumes "(key, r) \<in> set (reducers m)"
    and "mutation (r (slice s key) action) = Some v"
  shows "(\<not> production env \<longrightarrow>
            reducer_call (load_module env0 m) env (Some s) action = Inl TypeError)
       \<and> (\<not> production env \<and> mutation (r Undefined action) \<noteq> None \<longrightarrow>
            reducer_call (load_module env0 m) env None action = Inl TypeError)
       \<and> (production env \<and> \<not> frozen s
            \<and> (\<forall>(k, r') \<in> set (reducers m).
                  mutation (r' (slice s k) action) \<noteq> None \<longrightarrow> \<not> absent (slice s k)) \<longrightarrow>
            reducer_call (load_module env0 m) env (Some s) action
              = Inr (Some (written (reducers m) s action),
                     gathered (reducers m) s action empty_object)
            \<and> slice (written (reducers m) s action) key = Def v)
       \<and> reducer_call (load_module env0 m) env st act
            = (if production env then productionReducer m st act
               else developmentReducer m st act)"
proof (intro conjI impI)
  assume dev: "\<not> production env"
  have "frozen (deepFreeze s)"
    by (simp add: deepFreeze_def)
  moreover have "mutation (r (slice (deepFreeze s) key) action) \<noteq> None"
    using assms(2) by (simp add: deepFreeze_def)
  ultimately have
    "combination (reducers m) (deepFreeze s) action empty_object = Inl TypeError"
    using combination_frozen_mutation[OF assms(1)] by blast
  then show "reducer_call (load_module env0 m) env (Some s) action = Inl TypeError"
    using dev
    by (simp add: reducer_call_def load_module_def compose_def storeFreeze_def
        combineReducers_def)
next
  assume dev: "\<not> production env \<and> mutation (r Undefined action) \<noteq> None"
  have "frozen (deepFreeze (empty_object :: 'a State))"
    by (simp add: deepFreeze_def)
  moreover have
    "mutation (r (slice (deepFreeze (empty_object :: 'a State)) key) action) \<noteq> None"
    using dev by (simp add: deepFreeze_def empty_object_def)
  ultimately have
    "combination (reducers m) (deepFreeze empty_object) action empty_object = Inl TypeError"
    using combination_frozen_mutation[OF assms(1)] by blast
  then show "reducer_call (load_module env0 m) env None action = Inl TypeError"
    using dev
    by (simp add: reducer_call_def load_module_def compose_def storeFreeze_def
        combineReducers_def)
next
  assume prod: "production env \<and> \<not> frozen s
            \<and> (\<forall>(k, r') \<in> set (reducers m).
                  mutation (r' (slice s k) action) \<noteq> None \<longrightarrow> \<not> absent (slice s k))"
  then have nf: "\<not> frozen s"
    and obj: "\<forall>(k, r') \<in> set (reducers m).
                mutation (r' (slice s k) action) \<noteq> None \<longrightarrow> \<not> absent (slice s k)"
    by blast+
  have "combination (reducers m) s action empty_object
          = Inr (written (reducers m) s action, gathered (reducers m) s action empty_object)"
    by (rule combination_unfrozen[OF distinct_reducers nf obj])
  then show "reducer_call (load_module env0 m) env (Some s) action
      = Inr (Some (written (reducers m) s action),
             gathered (reducers m) s action empty_object)"
    using prod by (simp add: reducer_call_def load_module_def combineReducers_def)
next
  show "slice (written (reducers m) s action) key = Def v"
    by (rule written_key[OF assms(1) distinct_reducers assms(2)])
next
  show "reducer_call (load_module env0 m) env st act
            = (if production env then productionReducer m st act
               else developmentReducer m st act)"
    by (simp add: reducer_call_def load_module_def developmentReducer_def
        productionReducer_def)
qed

text \<open>
  C9: when every feature transition function is pure (it writes into no input, for
  every state and action), a call of the root transition function does not raise,
  leaves the content of the state it was given as it was, and a second call with the
  same state and the same action returns an equal result.
\<close>

theorem reducer_repeatable:
  assumes "\<forall>(key, r) \<in> set (reducers m). \<forall>s a. mutation (r s a) = None"
  shows "\<exists>state' n. reducer env m state action = Inr (state', n)
           \<and> map_option slice state' = map_option slice state
           \<and> (\<exists>state''. reducer env m state' action = Inr (state'', n))"
proof -
  have nm: "\<forall>(key, r) \<in> set (reducers m). mutation (r (slice s key) action) = None" for s :: "'a State"
    using assms by auto
  have nu: "\<forall>(key, r) \<in> set (reducers m). mutation (r Undefined action) = None"
    using assms by auto
  show ?thesis
  proof (cases state)
    case None
    show ?thesis
    proof (cases "production env")
      case True
      then show ?thesis
        using None productionReducer_no_state[OF nu] by (simp add: reducer_def)
    next
      case False
      then show ?thesis
        using None developmentReducer_no_state[OF nu] by (simp add: reducer_def)
    qed
  next
    case (Some s)
    show ?thesis
    proof (cases "production env")
      case True
      then show ?thesis
        using Some productionReducer_no_mutation[OF nm] by (simp add: reducer_def)
    next
      case False
      have 1: "reducer env m (Some s) action
          = Inr (Some (deepFreeze s), deepFreeze (gathered (reducers m) s action empty_object))"
        using False developmentReducer_no_mutation[OF nm] by (simp add: reducer_def)
      have 2: "reducer env m (Some (deepFreeze s)) action
          = Inr (Some (deepFreeze (deepFreeze s)),
                 deepFreeze (gathered (reducers m) s action empty_object))"
        using False developmentReducer_no_mutation[OF nm, of "deepFreeze s"]
        by (simp add: reducer_def gathered_deepFreeze)
      have 3: "slice (deepFreeze s) = slice s" by (simp add: deepFreeze_def)
      show ?thesis using Some 1 2 3 by simp
    qed
  qed
qed

text \<open>
  Purity is needed: a player transition function that increments its counter in place
  makes the second call on the same state return another result.
\<close>

lemma mutating_reducer_not_repeatable:
  "\<exists>s1 n1 s2 n2.
     reducer \<lparr>production = True\<rparr> mutating_modules (Some zero_state) () = Inr (Some s1, n1)
     \<and> reducer \<lparr>production = True\<rparr> mutating_modules (Some s1) () = Inr (Some s2, n2)
     \<and> slice n1 ''player'' = Def 1 \<and> slice n2 ''player'' = Def 2"
  by (simp add: reducer_def productionReducer_def combineReducers_def reducers_def
      mutating_modules_def pure_modules_def initial_zero_def increment_in_place_def
      zero_state_def call_reducer_def absent_def empty_object_def Let_def)

text \<open>
  C7 at feature transition functions that return 0 when called with no state, in the
  development and in the production variant.
\<close>

theorem reducer_first_call_populated_witness:
  "list_all
     (\<lambda>(key, r). mutation (r Undefined ()) = None \<and> returned (r Undefined ()) \<noteq> Undefined)
     (reducers pure_modules)
   \<and> (\<exists>nextState.
         reducer \<lparr>production = False\<rparr> pure_modules None () = Inr (None, nextState)
         \<and> (\<forall>(key, r) \<in> set (reducers pure_modules).
               slice nextState key = returned (r Undefined ()))
         \<and> (\<forall>key \<in> set State_keys. slice nextState key \<noteq> Undefined))
   \<and> (\<exists>nextState.
         reducer \<lparr>production = True\<rparr> pure_modules None () = Inr (None, nextState)
         \<and> (\<forall>(key, r) \<in> set (reducers pure_modules).
               slice nextState key = returned (r Undefined ()))
         \<and> (\<forall>key \<in> set State_keys. slice nextState key \<noteq> Undefined))"
proof -
  have h: "\<forall>(key, r) \<in> set (reducers pure_modules).
             mutation (r Undefined ()) = None \<and> returned (r Undefined ()) \<noteq> Undefined"
    by (simp add: reducers_def pure_modules_def initial_zero_def)
  have l: "list_all
     (\<lambda>(key, r). mutation (r Undefined ()) = None \<and> returned (r Undefined ()) \<noteq> Undefined)
     (reducers pure_modules)"
    using h by (simp add: list_all_iff)
  show ?thesis
    using l reducer_first_call_populated[OF h, of "\<lparr>production = False\<rparr>"]
      reducer_first_call_populated[OF h, of "\<lparr>production = True\<rparr>"]
    by (intro conjI)
qed

text \<open>
  C8 at a player transition function that increments a counter inside its input
  object, every slice of the state holding the counter 0: the module loaded under the
  production flag and called under the non-production flag raises, on the state as it
  is and on the frozen state; loaded under the non-production flag and called under
  the production flag it returns, the counter of the player left at 1. With a player
  transition function that writes also when given no state, the call with no prior
  state under the non-production flag raises.
\<close>

theorem reducer_mutation_guard_witness:
  "reducer_call (load_module \<lparr>production = True\<rparr> mutating_modules) \<lparr>production = False\<rparr>
     (Some zero_state) () = Inl TypeError
   \<and> reducer_call (load_module \<lparr>production = True\<rparr> mutating_modules) \<lparr>production = False\<rparr>
       (Some (deepFreeze zero_state)) () = Inl TypeError
   \<and> reducer_call (load_module \<lparr>production = False\<rparr> mutating_modules) \<lparr>production = True\<rparr>
       (Some zero_state) ()
       = Inr (Some (written (reducers mutating_modules) zero_state ()),
              gathered (reducers mutating_modules) zero_state () empty_object)
   \<and> slice (written (reducers mutating_modules) zero_state ()) ''player'' = Def 1
   \<and> slice (gathered (reducers mutating_modules) zero_state () empty_object) ''player''
       = Def 1
   \<and> reducer_call (load_module \<lparr>production = True\<rparr> writing_modules) \<lparr>production = False\<rparr>
       None () = Inl TypeError"
proof -
  have k1: "(''player'', write_always) \<in> set (reducers writing_modules)"
    by (simp add: reducers_def writing_modules_def)
  have k2: "mutation (write_always (slice zero_state ''player'') ()) = Some 1"
    by (simp add: write_always_def)
  have k3: "mutation (write_always Undefined ()) \<noteq> None"
    by (simp add: write_always_def)
  have d: "reducer_call (load_module \<lparr>production = True\<rparr> writing_modules)
      \<lparr>production = False\<rparr> None () = Inl TypeError"
    using k3 reducer_mutation_guard
      [where key = "''player''" and r = write_always and m = writing_modules
         and s = zero_state and action = "()" and v = 1
         and env = "\<lparr>production = False\<rparr>" and ?env0.0 = "\<lparr>production = True\<rparr>"
         and st = None and act = "()", OF k1 k2]
    by simp
  have h1: "(''player'', increment_in_place) \<in> set (reducers mutating_modules)"
    by (simp add: reducers_def mutating_modules_def)
  have h2: "mutation (increment_in_place (slice zero_state ''player'') ()) = Some 1"
    by (simp add: increment_in_place_def zero_state_def)
  have h2': "mutation (increment_in_place (slice (deepFreeze zero_state) ''player'') ())
             = Some 1"
    by (simp add: increment_in_place_def zero_state_def deepFreeze_def)
  have h3: "\<forall>(k, r') \<in> set (reducers mutating_modules).
           mutation (r' (slice zero_state k) ()) \<noteq> None \<longrightarrow> \<not> absent (slice zero_state k)"
    by (simp add: zero_state_def absent_def)
  have h4: "\<not> frozen zero_state"
    by (simp add: zero_state_def)
  have g: "slice (gathered (reducers mutating_modules) zero_state () empty_object) ''player''
           = Def 1"
    using gathered_slice[OF h1 distinct_reducers, of zero_state "()" empty_object]
    by (simp add: increment_in_place_def zero_state_def)
  have a: "reducer_call (load_module \<lparr>production = True\<rparr> mutating_modules)
      \<lparr>production = False\<rparr> (Some zero_state) () = Inl TypeError"
    using reducer_mutation_guard
      [where key = "''player''" and r = increment_in_place and m = mutating_modules
         and s = zero_state and action = "()" and v = 1
         and env = "\<lparr>production = False\<rparr>" and ?env0.0 = "\<lparr>production = True\<rparr>"
         and st = None and act = "()", OF h1 h2]
    by simp
  have b: "reducer_call (load_module \<lparr>production = True\<rparr> mutating_modules)
      \<lparr>production = False\<rparr> (Some (deepFreeze zero_state)) () = Inl TypeError"
    using reducer_mutation_guard
      [where key = "''player''" and r = increment_in_place and m = mutating_modules
         and s = "deepFreeze zero_state" and action = "()" and v = 1
         and env = "\<lparr>production = False\<rparr>" and ?env0.0 = "\<lparr>production = True\<rparr>"
         and st = None and act = "()", OF h1 h2']
    by simp
  have c: "reducer_call (load_module \<lparr>production = False\<rparr> mutating_modules)
       \<lparr>production = True\<rparr> (Some zero_state) ()
       = Inr (Some (written (reducers mutating_modules) zero_state ()),
              gathered (reducers mutating_modules) zero_state () empty_object)
     \<and> slice (written (reducers mutating_modules) zero_state ()) ''player'' = Def 1"
    using h3 h4 reducer_mutation_guard
      [where key = "''player''" and r = increment_in_place and m = mutating_modules
         and s = zero_state and action = "()" and v = 1
         and env = "\<lparr>production = True\<rparr>" and ?env0.0 = "\<lparr>production = False\<rparr>"
         and st = None and act = "()", OF h1 h2]
    by simp
  show ?thesis
    using a b c d g by simp
qed

text \<open>
  C9 at feature transition functions that write nothing, in the development variant,
  on a state whose slices hold the counter 0.
\<close>

theorem reducer_repeatable_witness:
  "list_all (\<lambda>(key, r). \<forall>s a. mutation (r s a) = None) (reducers pure_modules)
   \<and> (\<exists>state' n.
         reducer \<lparr>production = False\<rparr> pure_modules (Some zero_state) () = Inr (state', n)
         \<and> map_option slice state' = map_option slice (Some zero_state)
         \<and> (\<exists>state''.
               reducer \<lparr>production = False\<rparr> pure_modules state' () = Inr (state'', n)))"
proof -
  have h: "\<forall>(key, r) \<in> set (reducers pure_modules). \<forall>s a. mutation (r s a) = None"
    by (simp add: reducers_def pure_modules_def initial_zero_def split: nullable.splits)
  have l: "list_all (\<lambda>(key, r). \<forall>s a. mutation (r s a) = None) (reducers pure_modules)"
    using h by (simp add: list_all_iff)
  from l reducer_repeatable[OF h, of "\<lparr>production = False\<rparr>" "Some zero_state" "()"]
  show ?thesis by (rule conjI)
qed

end
